theory Spec2Isabelle
  imports Main
begin

section \<open>use-file-dialog: data model\<close>

text \<open>
  The hook \<^verbatim>\<open>useFileDialog\<close> of
  \<^verbatim>\<open>packages/@mantine/hooks/src/use-file-dialog/use-file-dialog.ts\<close>.
  A \<^verbatim>\<open>File\<close> is an opaque handle. A \<^verbatim>\<open>FileList\<close> is a platform object: it has
  an identity (\<open>fl_id\<close>) besides its ordered items, so that "the same object" and "an equal
  copy" are different values of the model.
\<close>

type_synonym File = nat

record FileList =
  fl_id :: nat
  fl_items :: "File list"

text \<open>\<^verbatim>\<open>initialFiles?: FileList | File[]\<close>: the two shapes \<^verbatim>\<open>instanceof FileList\<close> tells apart.\<close>

datatype initial_files = OfFileList FileList | OfArray "File list"

text \<open>
  An optional property of an options object: the key is not there (\<open>Absent\<close>), or it is an
  own property whose value may be \<^verbatim>\<open>undefined\<close> (\<open>Own None\<close>). Reading \<^verbatim>\<open>o.k\<close> gives
  \<^verbatim>\<open>undefined\<close> in both of these cases; object spread copies own properties only.
\<close>

datatype 'a opt_prop = Absent | Own "'a option"

fun prop_get :: "'a opt_prop \<Rightarrow> 'a option" where
  "prop_get Absent = None"
| "prop_get (Own v) = v"

text \<open>A callback is known by its identity; calling it is recorded in the log of the hook.\<close>

type_synonym callback = nat

record UseFileDialogOptions =
  multiple :: "bool opt_prop"
  accept :: "string opt_prop"
  capture :: "string opt_prop"
  directory :: "bool opt_prop"
  resetOnOpen :: "bool opt_prop"
  initialFiles :: "initial_files opt_prop"
  onChange :: "callback opt_prop"
  onCancel :: "callback opt_prop"

definition defaultOptions :: UseFileDialogOptions where
  "defaultOptions =
     \<lparr> multiple = Own (Some True), accept = Own (Some ''*''), capture = Absent,
       directory = Absent, resetOnOpen = Absent, initialFiles = Absent,
       onChange = Absent, onCancel = Absent \<rparr>"

text \<open>\<^verbatim>\<open>{ ...a, ...b }\<close> on one key: an own property of \<open>b\<close> wins, also when it is undefined.\<close>

fun spread_prop :: "'a opt_prop \<Rightarrow> 'a opt_prop \<Rightarrow> 'a opt_prop" where
  "spread_prop a Absent = a"
| "spread_prop a (Own v) = Own v"

definition spread :: "UseFileDialogOptions \<Rightarrow> UseFileDialogOptions \<Rightarrow> UseFileDialogOptions" where
  "spread a b =
     \<lparr> multiple = spread_prop (multiple a) (multiple b),
       accept = spread_prop (accept a) (accept b),
       capture = spread_prop (capture a) (capture b),
       directory = spread_prop (directory a) (directory b),
       resetOnOpen = spread_prop (resetOnOpen a) (resetOnOpen b),
       initialFiles = spread_prop (initialFiles a) (initialFiles b),
       onChange = spread_prop (onChange a) (onChange b),
       onCancel = spread_prop (onCancel a) (onCancel b) \<rparr>"

text \<open>Line 81: \<^verbatim>\<open>const options = { ...defaultOptions, ...input }\<close>.\<close>

definition merged_options :: "UseFileDialogOptions \<Rightarrow> UseFileDialogOptions" where
  "merged_options input = spread defaultOptions input"

text \<open>Truthiness of the two kinds of option values that the code tests with \<^verbatim>\<open>if\<close>.\<close>

fun truthy_bool :: "bool option \<Rightarrow> bool" where
  "truthy_bool (Some b) = b"
| "truthy_bool None = False"

fun truthy_string :: "string option \<Rightarrow> bool" where
  "truthy_string (Some s) = (s \<noteq> [])"
| "truthy_string None = False"

section \<open>getInitialFilesList\<close>

text \<open>
  \<^verbatim>\<open>new DataTransfer()\<close> makes an empty, writable drag data store; its \<^verbatim>\<open>files\<close> is a
  FileList object of its own, here the one with the next unused identity.
  \<^verbatim>\<open>items.add(file)\<close> puts one more item of kind File at the end of the store: the platform
  compares nothing, so a file added twice is there twice.
\<close>

record DataTransfer =
  dt_files :: FileList

definition new_DataTransfer :: "nat \<Rightarrow> DataTransfer" where
  "new_DataTransfer n = \<lparr> dt_files = \<lparr> fl_id = n, fl_items = [] \<rparr> \<rparr>"

definition items_add :: "File \<Rightarrow> DataTransfer \<Rightarrow> DataTransfer" where
  "items_add file dt = dt \<lparr> dt_files := (dt_files dt) \<lparr> fl_items := fl_items (dt_files dt) @ [file] \<rparr> \<rparr>"

text \<open>The loop \<^verbatim>\<open>for (const file of files) result.items.add(file)\<close> of lines 45 to 47.\<close>

fun add_all :: "File list \<Rightarrow> DataTransfer \<Rightarrow> DataTransfer" where
  "add_all [] result = result"
| "add_all (file # rest) result = add_all rest (items_add file result)"

text \<open>
  Lines 35 to 50. The first argument is the next unused object identity, returned
  advanced by one when a DataTransfer was made. The type of \<^verbatim>\<open>initialFiles\<close> has no
  \<^verbatim>\<open>null\<close>; \<^verbatim>\<open>undefined\<close> is \<open>None\<close>. An array is truthy also when it is empty.
\<close>

fun getInitialFilesList :: "nat \<Rightarrow> initial_files option \<Rightarrow> FileList option \<times> nat" where
  "getInitialFilesList n None = (None, n)"
| "getInitialFilesList n (Some (OfFileList files)) = (Some files, n)"
| "getInitialFilesList n (Some (OfArray files)) =
     (Some (dt_files (add_all files (new_DataTransfer n))), Suc n)"

section \<open>The platform: input elements, listeners, the log\<close>

text \<open>
  What the caller and the platform can observe of a run, in order: a call of
  \<^verbatim>\<open>options.onChange\<close> with its argument, and a programmatic click on an input element.
\<close>

datatype event = OnChange callback "FileList option" | Click nat

text \<open>
  An input element. \<open>el_files\<close> is what \<^verbatim>\<open>input.files\<close> evaluates to, of type
  \<^verbatim>\<open>FileList | null\<close>. The \<^verbatim>\<open>value\<close> of a file input is derived from its selected files
  (empty exactly when there are none) and assigning the empty string to it empties them,
  so the model keeps the files only. \<open>el_connected\<close> says that the element is a child of
  \<^verbatim>\<open>document.body\<close>. \<open>el_listeners\<close> are its listeners for \<^verbatim>\<open>change\<close>: the only
  listener the code ever adds is the closure of lines 92 to 97, known by the options it
  captured, and it is always added with the signal of the one AbortController of the hook.
\<close>

record HTMLInputElement =
  el_type :: string
  el_accept :: string
  el_multiple :: bool
  el_capture :: string
  el_webkitdirectory :: bool
  el_display :: string
  el_files :: "FileList option"
  el_connected :: bool
  el_listeners :: "UseFileDialogOptions list"

definition value_is_empty :: "HTMLInputElement \<Rightarrow> bool" where
  "value_is_empty el = (case el_files el of None \<Rightarrow> True | Some fl \<Rightarrow> fl_items fl = [])"

text \<open>
  One instance of the hook: the state of \<^verbatim>\<open>useState\<close> (\<open>files\<close>), the two refs
  (\<open>inputRef\<close> holds the index of an element in \<open>elems\<close>, \<open>aborted\<close> is
  \<^verbatim>\<open>abortController.current.signal.aborted\<close>: \<^verbatim>\<open>useRef\<close> keeps the controller of the first
  render for the whole life of the instance), every element the instance has created,
  the log, and the next unused object identity.
\<close>

record hook =
  files :: "FileList option"
  inputRef :: "nat option"
  aborted :: bool
  elems :: "HTMLInputElement list"
  calls :: "event list"
  next_obj :: nat

datatype js_error = ReferenceError | TypeError

section \<open>createInput\<close>

text \<open>\<^verbatim>\<open>document.createElement('input')\<close>: a text input, unconnected, without listeners.\<close>

definition createElement_input :: HTMLInputElement where
  "createElement_input =
     \<lparr> el_type = ''text'', el_accept = [], el_multiple = False, el_capture = [],
       el_webkitdirectory = False, el_display = [], el_files = None,
       el_connected = False, el_listeners = [] \<rparr>"

text \<open>\<^verbatim>\<open>input.type = 'file'\<close>: from now on \<^verbatim>\<open>input.files\<close> is a FileList, empty at first.\<close>

definition set_type_file :: "nat \<Rightarrow> HTMLInputElement \<Rightarrow> HTMLInputElement" where
  "set_type_file n el = el \<lparr> el_type := ''file'', el_files := Some \<lparr> fl_id = n, fl_items = [] \<rparr> \<rparr>"

definition set_accept :: "string option \<Rightarrow> HTMLInputElement \<Rightarrow> HTMLInputElement" where
  "set_accept v el =
     (case v of Some a \<Rightarrow> (if truthy_string v then el \<lparr> el_accept := a \<rparr> else el) | None \<Rightarrow> el)"

definition set_multiple :: "bool option \<Rightarrow> HTMLInputElement \<Rightarrow> HTMLInputElement" where
  "set_multiple v el =
     (case v of Some m \<Rightarrow> (if truthy_bool v then el \<lparr> el_multiple := m \<rparr> else el) | None \<Rightarrow> el)"

definition set_capture :: "string option \<Rightarrow> HTMLInputElement \<Rightarrow> HTMLInputElement" where
  "set_capture v el =
     (case v of Some c \<Rightarrow> (if truthy_string v then el \<lparr> el_capture := c \<rparr> else el) | None \<Rightarrow> el)"

definition set_webkitdirectory :: "bool option \<Rightarrow> HTMLInputElement \<Rightarrow> HTMLInputElement" where
  "set_webkitdirectory v el =
     (case v of Some d \<Rightarrow> (if truthy_bool v then el \<lparr> el_webkitdirectory := d \<rparr> else el)
      | None \<Rightarrow> el)"

text \<open>
  Lines 52 to 78. \<open>has_document\<close> is \<^verbatim>\<open>typeof document !== 'undefined'\<close>; the second
  component of the result is the next unused object identity.
\<close>

definition createInput ::
  "bool \<Rightarrow> UseFileDialogOptions \<Rightarrow> nat \<Rightarrow> HTMLInputElement option \<times> nat" where
  "createInput has_document options n =
     (if \<not> has_document then (None, n)
      else
        (Some
          ((set_webkitdirectory (prop_get (directory options))
             (set_capture (prop_get (capture options))
               (set_multiple (prop_get (multiple options))
                 (set_accept (prop_get (accept options))
                   (set_type_file n createElement_input)))))
           \<lparr> el_display := ''none'' \<rparr>),
         Suc n))"

section \<open>The hook\<close>

definition update_element ::
  "nat \<Rightarrow> (HTMLInputElement \<Rightarrow> HTMLInputElement) \<Rightarrow> hook \<Rightarrow> hook" where
  "update_element i f s =
     (if i < length (elems s) then s \<lparr> elems := (elems s)[i := f (elems s ! i)] \<rparr> else s)"

text \<open>\<^verbatim>\<open>inputRef.current\<close> and \<^verbatim>\<open>inputRef.current?.files\<close>.\<close>

definition current_input :: "hook \<Rightarrow> HTMLInputElement option" where
  "current_input s =
     (case inputRef s of None \<Rightarrow> None
      | Some i \<Rightarrow> (if i < length (elems s) then Some (elems s ! i) else None))"

definition current_files :: "hook \<Rightarrow> FileList option" where
  "current_files s = (case current_input s of None \<Rightarrow> None | Some el \<Rightarrow> el_files el)"

text \<open>\<^verbatim>\<open>options.onChange?.(v)\<close>: nothing happens when there is no callback.\<close>

definition call_onChange :: "UseFileDialogOptions \<Rightarrow> FileList option \<Rightarrow> hook \<Rightarrow> hook" where
  "call_onChange options v s =
     (case prop_get (onChange options) of None \<Rightarrow> s
      | Some cb \<Rightarrow> s \<lparr> calls := calls s @ [OnChange cb v] \<rparr>)"

text \<open>
  The listener of lines 92 to 97. It reads the files of the element the ref holds now,
  not of the element the event was fired at.
\<close>

definition change_listener :: "UseFileDialogOptions \<Rightarrow> hook \<Rightarrow> hook" where
  "change_listener options s =
     (case current_files s of None \<Rightarrow> s
      | Some fl \<Rightarrow> call_onChange options (Some fl) (s \<lparr> files := Some fl \<rparr>))"

text \<open>
  \<^verbatim>\<open>addEventListener('change', listener, { signal })\<close>: the platform adds nothing when
  the signal is aborted already.
\<close>

definition addEventListener :: "nat \<Rightarrow> UseFileDialogOptions \<Rightarrow> hook \<Rightarrow> hook" where
  "addEventListener i listener s =
     (if aborted s then s
      else update_element i (\<lambda>el. el \<lparr> el_listeners := el_listeners el @ [listener] \<rparr>) s)"

text \<open>
  \<^verbatim>\<open>abortController.current.abort()\<close>: nothing when aborted already; otherwise the
  signal becomes aborted and the platform removes every listener added with it.
\<close>

definition abort :: "hook \<Rightarrow> hook" where
  "abort s =
     (if aborted s then s
      else s \<lparr> aborted := True, elems := map (\<lambda>el. el \<lparr> el_listeners := [] \<rparr>) (elems s) \<rparr>)"

text \<open>\<^verbatim>\<open>inputRef.current?.remove()\<close>: the ref keeps holding the element.\<close>

definition remove_current :: "hook \<Rightarrow> hook" where
  "remove_current s =
     (case inputRef s of None \<Rightarrow> s
      | Some i \<Rightarrow> update_element i (\<lambda>el. el \<lparr> el_connected := False \<rparr>) s)"

text \<open>
  The effect of lines 87 to 101. Without a document \<open>createInput\<close> gives null and
  evaluating \<^verbatim>\<open>document.body\<close> throws; \<^verbatim>\<open>appendChild(null)\<close> would throw a TypeError.
  An error ends the run of the effect: what the hook does after it is not modelled.
\<close>

definition effect_setup :: "bool \<Rightarrow> UseFileDialogOptions \<Rightarrow> hook \<Rightarrow> js_error + hook" where
  "effect_setup has_document options s =
     (case createInput has_document options (next_obj s) of
        (input, n) \<Rightarrow>
          (if \<not> has_document then Inl ReferenceError
           else
             (case input of
                None \<Rightarrow> Inl TypeError
              | Some el \<Rightarrow>
                  Inr (addEventListener (length (elems s)) options
                        (s \<lparr> inputRef := Some (length (elems s)),
                             elems := elems s @ [el \<lparr> el_connected := True \<rparr>],
                             next_obj := n \<rparr>)))))"

text \<open>The teardown the effect returns, lines 103 to 106.\<close>

definition effect_cleanup :: "hook \<Rightarrow> hook" where
  "effect_cleanup s = remove_current (abort s)"

text \<open>
  \<^verbatim>\<open>inputRef.current.value = ''\<close> on a file input empties its selected files; the
  emptied selection is a FileList object of its own.
\<close>

definition clear_value :: "nat \<Rightarrow> hook \<Rightarrow> hook" where
  "clear_value i s =
     update_element i
       (\<lambda>el. el \<lparr> el_files :=
                    (case el_files el of None \<Rightarrow> None
                     | Some fl \<Rightarrow> Some \<lparr> fl_id = next_obj s, fl_items = [] \<rparr>) \<rparr>)
       (s \<lparr> next_obj := Suc (next_obj s) \<rparr>)"

text \<open>
  \<open>reset\<close>, lines 109 to 115, and \<open>open\<close>, lines 117 to 123 (\<open>open_dialog\<close> here). The
  dependency lists of \<^verbatim>\<open>useCallback\<close> name everything the two closures read from
  \<open>options\<close>, so the functions returned by a render act on the options of that render.
  \<^verbatim>\<open>setFiles\<close> is taken to have happened when the function returns.
\<close>

definition reset :: "UseFileDialogOptions \<Rightarrow> hook \<Rightarrow> hook" where
  "reset options s =
     (case inputRef s of
        None \<Rightarrow> s \<lparr> files := None \<rparr>
      | Some i \<Rightarrow> call_onChange options None (clear_value i (s \<lparr> files := None \<rparr>)))"

text \<open>\<^verbatim>\<open>inputRef.current?.click()\<close>: the activation of the Trigger.\<close>

definition click_current :: "hook \<Rightarrow> hook" where
  "click_current s =
     (case inputRef s of None \<Rightarrow> s | Some i \<Rightarrow> s \<lparr> calls := calls s @ [Click i] \<rparr>)"

definition open_dialog :: "UseFileDialogOptions \<Rightarrow> hook \<Rightarrow> hook" where
  "open_dialog options s =
     click_current (if truthy_bool (prop_get (resetOnOpen options)) then reset options s else s)"

section \<open>Native change notifications\<close>

text \<open>
  Firing \<^verbatim>\<open>change\<close> at an element runs its listeners in the order they were added.
\<close>

fun run_listeners :: "UseFileDialogOptions list \<Rightarrow> hook \<Rightarrow> hook" where
  "run_listeners [] s = s"
| "run_listeners (l # ls) s = run_listeners ls (change_listener l s)"

definition dispatch_change :: "nat \<Rightarrow> hook \<Rightarrow> hook" where
  "dispatch_change i s =
     (if i < length (elems s) then run_listeners (el_listeners (elems s ! i)) s else s)"

text \<open>
  The native notification: the platform stores what was picked in element \<open>i\<close> as its
  \<^verbatim>\<open>files\<close> (\<open>report\<close>) and fires \<^verbatim>\<open>change\<close> at it.
\<close>

definition native_change :: "nat \<Rightarrow> FileList option \<Rightarrow> hook \<Rightarrow> hook" where
  "native_change i report s =
     dispatch_change i (update_element i (\<lambda>el. el \<lparr> el_files := report \<rparr>) s)"

fun native_changes :: "(nat \<times> FileList option) list \<Rightarrow> hook \<Rightarrow> hook" where
  "native_changes [] s = s"
| "native_changes ((i, report) # rest) s = native_changes rest (native_change i report s)"

section \<open>Renders and the scheduling of the effect\<close>

text \<open>The first render, lines 81 to 84: the state and the refs get their initial values.\<close>

definition useFileDialog_init :: "nat \<Rightarrow> UseFileDialogOptions \<Rightarrow> hook" where
  "useFileDialog_init n input =
     (case getInitialFilesList n (prop_get (initialFiles (merged_options input))) of
        (fl, n') \<Rightarrow>
          \<lparr> files = fl, inputRef = None, aborted = False, elems = [], calls = [],
            next_obj = n' \<rparr>)"

text \<open>
  A later render evaluates the same lines; \<^verbatim>\<open>useState\<close> and \<^verbatim>\<open>useRef\<close> drop the
  initial values they are given, so only the objects made on the way are new.
\<close>

definition useFileDialog_render :: "UseFileDialogOptions \<Rightarrow> hook \<Rightarrow> hook" where
  "useFileDialog_render input s =
     s \<lparr> next_obj :=
           snd (getInitialFilesList (next_obj s) (prop_get (initialFiles (merged_options input)))) \<rparr>"

text \<open>
  Modelled from the spec: \<^verbatim>\<open>useIsomorphicEffect\<close>, imported from
  \<^verbatim>\<open>../use-isomorphic-effect/use-isomorphic-effect\<close>, is not among the sources. Section 4.4 of
  the specification: the effect runs on initial mount, after the first render.
\<close>

definition mount :: "bool \<Rightarrow> nat \<Rightarrow> UseFileDialogOptions \<Rightarrow> js_error + hook" where
  "mount has_document n input =
     effect_setup has_document (merged_options input) (useFileDialog_init n input)"

text \<open>
  Modelled from the spec: the scheduling of \<^verbatim>\<open>useIsomorphicEffect\<close>, section 4.4. The
  effect runs again whenever the configuration changes by identity, and the merged options
  are a new object at every render; the teardown of the previous run happens strictly
  before the next setup.
\<close>

definition config_change :: "bool \<Rightarrow> UseFileDialogOptions \<Rightarrow> hook \<Rightarrow> js_error + hook" where
  "config_change has_document input s =
     effect_setup has_document (merged_options input)
       (effect_cleanup (useFileDialog_render input s))"

text \<open>
  Modelled from the spec: the scheduling of \<^verbatim>\<open>useIsomorphicEffect\<close>, section 4.4. On
  final disposal the teardown of the last run happens.
\<close>

definition unmount :: "hook \<Rightarrow> hook" where
  "unmount s = effect_cleanup s"

section \<open>Well-formed states\<close>

text \<open>
  The ref holds an element that exists, and once the signal is aborted no element has a
  listener.
\<close>

definition no_listeners :: "hook \<Rightarrow> bool" where
  "no_listeners s = list_all (\<lambda>el. el_listeners el = []) (elems s)"

definition ref_in_range :: "hook \<Rightarrow> bool" where
  "ref_in_range s = (case inputRef s of None \<Rightarrow> True | Some i \<Rightarrow> i < length (elems s))"

definition wf :: "hook \<Rightarrow> bool" where
  "wf s = (ref_in_range s \<and> (if aborted s then no_listeners s else True))"

text \<open>What a list of listeners logs when the current files are \<open>fl\<close>.\<close>

fun onChange_calls :: "UseFileDialogOptions list \<Rightarrow> FileList \<Rightarrow> event list" where
  "onChange_calls [] fl = []"
| "onChange_calls (l # ls) fl =
     (case prop_get (onChange l) of None \<Rightarrow> [] | Some cb \<Rightarrow> [OnChange cb (Some fl)])
     @ onChange_calls ls fl"

fun nonnull_onChange :: "event \<Rightarrow> bool" where
  "nonnull_onChange (OnChange cb (Some fl)) = True"
| "nonnull_onChange (OnChange cb None) = False"
| "nonnull_onChange (Click i) = False"

section \<open>Sample inputs\<close>

definition sample_input :: UseFileDialogOptions where
  "sample_input =
     \<lparr> multiple = Absent, accept = Absent, capture = Absent, directory = Absent,
       resetOnOpen = Absent, initialFiles = Absent, onChange = Own (Some 7),
       onCancel = Absent \<rparr>"

definition sample_pick :: FileList where
  "sample_pick = \<lparr> fl_id = 100, fl_items = [1, 2] \<rparr>"

text \<open>The state after the first render and the first run of the effect, with a document.\<close>

definition sample_mounted :: hook where
  "sample_mounted =
     (case mount True 0 sample_input of
        Inr s \<Rightarrow> s
      | Inl e \<Rightarrow> useFileDialog_init 0 sample_input)"

text \<open>The same configuration with \<open>resetOnOpen\<close> set.\<close>

definition sample_resetOnOpen :: UseFileDialogOptions where
  "sample_resetOnOpen = sample_input \<lparr> resetOnOpen := Own (Some True) \<rparr>"

text \<open>The mounted state after the platform has reported a pick at the Trigger.\<close>

definition sample_picked :: hook where
  "sample_picked = native_change 0 (Some sample_pick) sample_mounted"

section \<open>The normalizer\<close>

lemma add_all_items:
  "fl_items (dt_files (add_all fs dt)) = fl_items (dt_files dt) @ fs"
  by (induction fs arbitrary: dt) (simp_all add: items_add_def)

lemma add_all_id:
  "fl_id (dt_files (add_all fs dt)) = fl_id (dt_files dt)"
  by (induction fs arbitrary: dt) (simp_all add: items_add_def)

text \<open>
  Claim C7. Given an array of file handles, \<open>getInitialFilesList\<close> returns a collection
  whose items are the array itself: as many, in the same order, a handle that occurs
  several times occurring as often.
\<close>

theorem getInitialFilesList_array:
  "\<exists>fl. fst (getInitialFilesList n (Some (OfArray fs))) = Some fl
        \<and> fl_items fl = fs
        \<and> length (fl_items fl) = length fs
        \<and> count_list (fl_items fl) f = count_list fs f"
  by (simp add: add_all_items new_DataTransfer_def)

text \<open>
  Claim C8. Given a FileList, \<open>getInitialFilesList\<close> returns that very object, identity
  and items, and makes no new object on the way.
\<close>

theorem getInitialFilesList_FileList:
  "getInitialFilesList n (Some (OfFileList fl)) = (Some fl, n)"
  by simp

text \<open>
  Claim C10. An empty array gives a collection that is not null and has no items; the
  result is null exactly when \<open>initialFiles\<close> is undefined.
\<close>

theorem getInitialFilesList_empty_array:
  "fst (getInitialFilesList n (Some (OfArray []))) = Some \<lparr> fl_id = n, fl_items = [] \<rparr>
   \<and> (fst (getInitialFilesList n x) = None) = (x = None)"
proof -
  have "(fst (getInitialFilesList n x) = None) = (x = None)"
  proof (cases x)
    case None
    then show ?thesis by simp
  next
    case (Some i)
    then show ?thesis by (cases i) simp_all
  qed
  then show ?thesis by (simp add: new_DataTransfer_def)
qed

section \<open>Projections of the operations\<close>

lemma update_element_proj [simp]:
  "files (update_element i f s) = files s"
  "calls (update_element i f s) = calls s"
  "inputRef (update_element i f s) = inputRef s"
  "aborted (update_element i f s) = aborted s"
  "next_obj (update_element i f s) = next_obj s"
  "length (elems (update_element i f s)) = length (elems s)"
  by (simp_all add: update_element_def)

lemma update_element_nth:
  "j < length (elems s) \<Longrightarrow>
   elems (update_element i f s) ! j = (if j = i then f (elems s ! j) else elems s ! j)"
  by (simp add: update_element_def nth_list_update)

lemma call_onChange_proj [simp]:
  "files (call_onChange options v s) = files s"
  "inputRef (call_onChange options v s) = inputRef s"
  "aborted (call_onChange options v s) = aborted s"
  "elems (call_onChange options v s) = elems s"
  "next_obj (call_onChange options v s) = next_obj s"
  by (simp_all add: call_onChange_def split: option.splits)

lemma call_onChange_calls:
  "calls (call_onChange options v s) =
     calls s @ (case prop_get (onChange options) of None \<Rightarrow> [] | Some cb \<Rightarrow> [OnChange cb v])"
  by (simp add: call_onChange_def split: option.splits)

lemma change_listener_proj [simp]:
  "inputRef (change_listener l s) = inputRef s"
  "aborted (change_listener l s) = aborted s"
  "elems (change_listener l s) = elems s"
  "next_obj (change_listener l s) = next_obj s"
  by (simp_all add: change_listener_def split: option.splits)

lemma current_input_eqI:
  "inputRef s' = inputRef s \<Longrightarrow> elems s' = elems s \<Longrightarrow> current_input s' = current_input s"
  by (simp add: current_input_def split: option.splits)

lemma current_files_eqI:
  "inputRef s' = inputRef s \<Longrightarrow> elems s' = elems s \<Longrightarrow> current_files s' = current_files s"
  using current_input_eqI [of s' s] by (simp add: current_files_def)

lemma current_files_change_listener [simp]:
  "current_files (change_listener l s) = current_files s"
  by (rule current_files_eqI) simp_all

lemma change_listener_None:
  "current_files s = None \<Longrightarrow> change_listener l s = s"
  by (simp add: change_listener_def)

lemma change_listener_Some:
  "current_files s = Some fl \<Longrightarrow>
   files (change_listener l s) = Some fl \<and>
   calls (change_listener l s) = calls s @ onChange_calls [l] fl"
  by (simp add: change_listener_def call_onChange_calls)

lemma run_listeners_proj [simp]:
  "inputRef (run_listeners ls s) = inputRef s"
  "aborted (run_listeners ls s) = aborted s"
  "elems (run_listeners ls s) = elems s"
  "next_obj (run_listeners ls s) = next_obj s"
  by (induction ls arbitrary: s) simp_all

lemma run_listeners_None:
  "current_files s = None \<Longrightarrow> run_listeners ls s = s"
  by (induction ls arbitrary: s) (simp_all add: change_listener_None)

lemma run_listeners_calls:
  "current_files s = Some fl \<Longrightarrow>
   calls (run_listeners ls s) = calls s @ onChange_calls ls fl"
proof (induction ls arbitrary: s)
  case Nil
  then show ?case by simp
next
  case (Cons l ls)
  have "current_files (change_listener l s) = Some fl"
    using Cons.prems by simp
  then have "calls (run_listeners ls (change_listener l s)) =
      calls (change_listener l s) @ onChange_calls ls fl"
    by (rule Cons.IH)
  then show ?case
    using change_listener_Some [OF Cons.prems, of l] by simp
qed

lemma run_listeners_files:
  "current_files s = Some fl \<Longrightarrow>
   files (run_listeners ls s) = (if ls = [] then files s else Some fl)"
proof (induction ls arbitrary: s)
  case Nil
  then show ?case by simp
next
  case (Cons l ls)
  have c: "current_files (change_listener l s) = Some fl"
    using Cons.prems by simp
  have "files (run_listeners ls (change_listener l s)) =
      (if ls = [] then files (change_listener l s) else Some fl)"
    using c by (rule Cons.IH)
  then show ?case
    using change_listener_Some [OF Cons.prems, of l] by simp
qed

lemma onChange_calls_nonnull: "list_all nonnull_onChange (onChange_calls ls fl)"
  by (induction ls) (simp_all split: option.splits)

subsection \<open>Listeners after an abort\<close>

lemma no_listeners_nth:
  "no_listeners s \<Longrightarrow> i < length (elems s) \<Longrightarrow> el_listeners (elems s ! i) = []"
  by (simp add: no_listeners_def list_all_length)

lemma no_listeners_update_element:
  "no_listeners s \<Longrightarrow> (\<And>el. el_listeners (f el) = el_listeners el) \<Longrightarrow>
   no_listeners (update_element i f s)"
  by (simp add: no_listeners_def update_element_def list_all_length nth_list_update)

lemma no_listeners_eqI:
  "elems s' = elems s \<Longrightarrow> no_listeners s' = no_listeners s"
  by (simp add: no_listeners_def)

lemma abort_aborted [simp]: "aborted (abort s)"
  by (simp add: abort_def)

lemma abort_proj [simp]:
  "files (abort s) = files s"
  "calls (abort s) = calls s"
  "inputRef (abort s) = inputRef s"
  "next_obj (abort s) = next_obj s"
  "length (elems (abort s)) = length (elems s)"
  by (simp_all add: abort_def)

lemma no_listeners_abort: "wf s \<Longrightarrow> no_listeners (abort s)"
  by (cases "aborted s") (simp_all add: abort_def wf_def no_listeners_def list_all_length)

lemma remove_current_proj [simp]:
  "files (remove_current s) = files s"
  "calls (remove_current s) = calls s"
  "inputRef (remove_current s) = inputRef s"
  "aborted (remove_current s) = aborted s"
  "next_obj (remove_current s) = next_obj s"
  "length (elems (remove_current s)) = length (elems s)"
  by (simp_all add: remove_current_def split: option.splits)

lemma no_listeners_remove_current: "no_listeners s \<Longrightarrow> no_listeners (remove_current s)"
  by (simp add: remove_current_def no_listeners_update_element split: option.splits)

lemma effect_cleanup_proj [simp]:
  "files (effect_cleanup s) = files s"
  "calls (effect_cleanup s) = calls s"
  "inputRef (effect_cleanup s) = inputRef s"
  "aborted (effect_cleanup s)"
  "next_obj (effect_cleanup s) = next_obj s"
  "length (elems (effect_cleanup s)) = length (elems s)"
  by (simp_all add: effect_cleanup_def)

lemma no_listeners_effect_cleanup: "wf s \<Longrightarrow> no_listeners (effect_cleanup s)"
  by (simp add: effect_cleanup_def no_listeners_abort no_listeners_remove_current)

lemma native_change_no_listeners:
  assumes "no_listeners s"
  shows "files (native_change i r s) = files s"
    and "calls (native_change i r s) = calls s"
    and "no_listeners (native_change i r s)"
    and "aborted (native_change i r s) = aborted s"
    and "inputRef (native_change i r s) = inputRef s"
proof -
  let ?u = "update_element i (\<lambda>el. el \<lparr> el_files := r \<rparr>) s"
  have u: "no_listeners ?u"
    using assms by (simp add: no_listeners_update_element)
  have d: "dispatch_change i ?u = ?u"
    using no_listeners_nth [OF u, of i] by (simp add: dispatch_change_def)
  show "files (native_change i r s) = files s"
    and "calls (native_change i r s) = calls s"
    and "no_listeners (native_change i r s)"
    and "aborted (native_change i r s) = aborted s"
    and "inputRef (native_change i r s) = inputRef s"
    using u d by (simp_all add: native_change_def)
qed

lemma native_changes_no_listeners:
  "no_listeners s \<Longrightarrow>
   files (native_changes ns s) = files s \<and> calls (native_changes ns s) = calls s"
proof (induction ns arbitrary: s)
  case Nil
  then show ?case by simp
next
  case (Cons a ns)
  obtain i r where a: "a = (i, r)" by (cases a)
  have "no_listeners (native_change i r s)"
    using Cons.prems by (rule native_change_no_listeners)
  then have "files (native_changes ns (native_change i r s)) = files (native_change i r s)
      \<and> calls (native_changes ns (native_change i r s)) = calls (native_change i r s)"
    by (rule Cons.IH)
  then show ?case
    using a native_change_no_listeners(1,2) [OF Cons.prems, of i r] by simp
qed

subsection \<open>Well-formedness is kept\<close>

lemma ref_in_range_eqI:
  "inputRef s' = inputRef s \<Longrightarrow> length (elems s') = length (elems s) \<Longrightarrow>
   ref_in_range s' = ref_in_range s"
  by (simp add: ref_in_range_def split: option.splits)

lemma wf_keep:
  assumes "wf s"
    and "inputRef s' = inputRef s"
    and "length (elems s') = length (elems s)"
    and "aborted s' = aborted s"
    and "no_listeners s \<Longrightarrow> no_listeners s'"
  shows "wf s'"
  using assms ref_in_range_eqI [of s' s] by (simp add: wf_def)

lemma wf_useFileDialog_init: "wf (useFileDialog_init n input)"
  by (simp add: useFileDialog_init_def wf_def ref_in_range_def split: prod.splits)

lemma wf_useFileDialog_render: "wf s \<Longrightarrow> wf (useFileDialog_render input s)"
  by (erule wf_keep) (simp_all add: useFileDialog_render_def no_listeners_def)

lemma wf_effect_cleanup: "wf s \<Longrightarrow> wf (effect_cleanup s)"
  using no_listeners_effect_cleanup [of s] ref_in_range_eqI [of "effect_cleanup s" s]
  by (simp add: wf_def)

lemma setters_listeners [simp]:
  "el_listeners (set_type_file n el) = el_listeners el"
  "el_listeners (set_accept a el) = el_listeners el"
  "el_listeners (set_multiple m el) = el_listeners el"
  "el_listeners (set_capture c el) = el_listeners el"
  "el_listeners (set_webkitdirectory w el) = el_listeners el"
  by (simp_all add: set_type_file_def set_accept_def set_multiple_def set_capture_def
      set_webkitdirectory_def split: option.splits)

lemma createInput_Some:
  "createInput d options n = (Some el, n') \<Longrightarrow> d \<and> n' = Suc n \<and> el_listeners el = []"
  by (auto simp: createInput_def createElement_input_def split: if_splits)

lemma effect_setup_Inr:
  assumes "effect_setup d options s = Inr s'"
  shows "\<exists>el. createInput d options (next_obj s) = (Some el, Suc (next_obj s)) \<and>
     s' = addEventListener (length (elems s)) options
        (s \<lparr> inputRef := Some (length (elems s)),
             elems := elems s @ [el \<lparr> el_connected := True \<rparr>],
             next_obj := Suc (next_obj s) \<rparr>)"
proof (cases "createInput d options (next_obj s)")
  case (Pair input n)
  show ?thesis
  proof (cases input)
    case None
    then show ?thesis using assms Pair by (simp add: effect_setup_def split: if_splits)
  next
    case (Some el)
    then have "n = Suc (next_obj s)" using Pair createInput_Some by blast
    then show ?thesis using assms Pair Some by (simp add: effect_setup_def split: if_splits)
  qed
qed

lemma wf_effect_setup:
  assumes "wf s" and "effect_setup d options s = Inr s'"
  shows "wf s'"
proof -
  obtain el where c: "createInput d options (next_obj s) = (Some el, Suc (next_obj s))"
    and s': "s' = addEventListener (length (elems s)) options
        (s \<lparr> inputRef := Some (length (elems s)),
             elems := elems s @ [el \<lparr> el_connected := True \<rparr>],
             next_obj := Suc (next_obj s) \<rparr>)"
    using effect_setup_Inr [OF assms(2)] by blast
  have l: "el_listeners el = []" using c createInput_Some by blast
  show ?thesis
    using assms(1) l
    by (auto simp: s' addEventListener_def wf_def ref_in_range_def no_listeners_def
        update_element_def)
qed

lemma clear_value_proj [simp]:
  "files (clear_value i s) = files s"
  "calls (clear_value i s) = calls s"
  "inputRef (clear_value i s) = inputRef s"
  "aborted (clear_value i s) = aborted s"
  "length (elems (clear_value i s)) = length (elems s)"
  by (simp_all add: clear_value_def)

lemma no_listeners_clear_value: "no_listeners s \<Longrightarrow> no_listeners (clear_value i s)"
proof -
  assume "no_listeners s"
  then have "no_listeners (s \<lparr> next_obj := Suc (next_obj s) \<rparr>)"
    by (simp add: no_listeners_def)
  then show ?thesis
    unfolding clear_value_def by (rule no_listeners_update_element) simp
qed

lemma reset_proj [simp]:
  "files (reset options s) = None"
  "inputRef (reset options s) = inputRef s"
  "aborted (reset options s) = aborted s"
  "length (elems (reset options s)) = length (elems s)"
  by (simp_all add: reset_def split: option.splits)

lemma no_listeners_reset: "no_listeners s \<Longrightarrow> no_listeners (reset options s)"
proof (cases "inputRef s")
  case None
  assume "no_listeners s"
  then show ?thesis using None by (simp add: reset_def no_listeners_def)
next
  case (Some i)
  assume "no_listeners s"
  then have "no_listeners (s \<lparr> files := None \<rparr>)" by (simp add: no_listeners_def)
  then have "no_listeners (clear_value i (s \<lparr> files := None \<rparr>))"
    by (rule no_listeners_clear_value)
  then show ?thesis using Some by (simp add: reset_def no_listeners_def)
qed

lemma wf_reset: "wf s \<Longrightarrow> wf (reset options s)"
  by (erule wf_keep) (simp_all add: no_listeners_reset)

lemma click_current_proj [simp]:
  "files (click_current s) = files s"
  "inputRef (click_current s) = inputRef s"
  "aborted (click_current s) = aborted s"
  "elems (click_current s) = elems s"
  "next_obj (click_current s) = next_obj s"
  by (simp_all add: click_current_def split: option.splits)

lemma wf_click_current: "wf s \<Longrightarrow> wf (click_current s)"
  by (erule wf_keep) (simp_all add: no_listeners_def)

lemma wf_open_dialog: "wf s \<Longrightarrow> wf (open_dialog options s)"
  by (simp add: open_dialog_def wf_click_current wf_reset)

lemma wf_native_change: "wf s \<Longrightarrow> wf (native_change i r s)"
proof (erule wf_keep)
  show "inputRef (native_change i r s) = inputRef s"
    "aborted (native_change i r s) = aborted s"
    "length (elems (native_change i r s)) = length (elems s)"
    by (simp_all add: native_change_def dispatch_change_def)
  show "no_listeners s \<Longrightarrow> no_listeners (native_change i r s)"
    by (rule native_change_no_listeners)
qed

lemma wf_mount: "mount d n input = Inr s \<Longrightarrow> wf s"
  unfolding mount_def by (rule wf_effect_setup [OF wf_useFileDialog_init])

lemma wf_config_change: "wf s \<Longrightarrow> config_change d input s = Inr s' \<Longrightarrow> wf s'"
  unfolding config_change_def
  by (rule wf_effect_setup [OF wf_effect_cleanup [OF wf_useFileDialog_render]])

lemma wf_unmount: "wf s \<Longrightarrow> wf (unmount s)"
  by (simp add: unmount_def wf_effect_cleanup)

section \<open>The operations of the hook\<close>

lemma sample_mounted_eq:
  "sample_mounted =
     \<lparr> files = None, inputRef = Some 0, aborted = False,
       elems = [\<lparr> el_type = ''file'', el_accept = ''*'', el_multiple = True, el_capture = [],
                  el_webkitdirectory = False, el_display = ''none'',
                  el_files = Some \<lparr> fl_id = 0, fl_items = [] \<rparr>, el_connected = True,
                  el_listeners = [merged_options sample_input] \<rparr>],
       calls = [], next_obj = 1 \<rparr>"
  by (simp add: sample_mounted_def mount_def effect_setup_def createInput_def
      useFileDialog_init_def merged_options_def spread_def defaultOptions_def sample_input_def
      set_webkitdirectory_def set_capture_def set_multiple_def set_accept_def set_type_file_def
      createElement_input_def addEventListener_def update_element_def)

lemma wf_sample_mounted: "wf sample_mounted"
  by (simp add: sample_mounted_eq wf_def ref_in_range_def)

lemma onChange_sample: "prop_get (onChange (merged_options sample_input)) = Some 7"
  by (simp add: merged_options_def spread_def defaultOptions_def sample_input_def)

subsection \<open>Teardown cancels the subscription\<close>

text \<open>
  Claim C2. Once the teardown has run on a well-formed state, no native change
  notification, at whatever element and with whatever report, and no sequence of them,
  changes the selection or calls \<open>onChange\<close>: the abort removed every listener.
\<close>

theorem unmount_cancels_notifications:
  assumes "wf s"
  shows "files (native_changes ns (unmount s)) = files s
       \<and> calls (native_changes ns (unmount s)) = calls s"
proof -
  have "no_listeners (effect_cleanup s)"
    using assms by (rule no_listeners_effect_cleanup)
  then have "files (native_changes ns (effect_cleanup s)) = files (effect_cleanup s)
      \<and> calls (native_changes ns (effect_cleanup s)) = calls (effect_cleanup s)"
    by (rule native_changes_no_listeners)
  then show ?thesis by (simp add: unmount_def)
qed

theorem unmount_cancels_notifications_witness:
  "wf sample_mounted
   \<and> files (native_changes [(0, Some sample_pick)] (unmount sample_mounted)) = None
   \<and> calls (native_changes [(0, Some sample_pick)] (unmount sample_mounted)) = []"
proof -
  have f: "files sample_mounted = None" "calls sample_mounted = []"
    by (simp_all add: sample_mounted_eq)
  show ?thesis
    using unmount_cancels_notifications [OF wf_sample_mounted, of "[(0, Some sample_pick)]"]
      f wf_sample_mounted
    by simp
qed

subsection \<open>The change listener\<close>

lemma native_change_current:
  assumes "inputRef s = Some i" and "i < length (elems s)"
  shows "native_change i report s =
     run_listeners (el_listeners (elems s ! i))
       (update_element i (\<lambda>el. el \<lparr> el_files := report \<rparr>) s)"
    and "current_files (update_element i (\<lambda>el. el \<lparr> el_files := report \<rparr>) s) = report"
  using assms
  by (simp_all add: native_change_def dispatch_change_def update_element_nth
      current_files_def current_input_def)

lemma run_listeners_log:
  "\<exists>evs. calls (run_listeners ls s) = calls s @ evs \<and> list_all nonnull_onChange evs"
proof (cases "current_files s")
  case None
  then show ?thesis by (simp add: run_listeners_None)
next
  case (Some fl)
  then show ?thesis
    using run_listeners_calls [of s fl ls] onChange_calls_nonnull [of ls fl] by blast
qed

lemma native_change_log:
  "\<exists>evs. calls (native_change i report s) = calls s @ evs \<and> list_all nonnull_onChange evs"
proof -
  let ?u = "update_element i (\<lambda>el. el \<lparr> el_files := report \<rparr>) s"
  show ?thesis
  proof (cases "i < length (elems s)")
    case True
    then have "native_change i report s = run_listeners (el_listeners (elems ?u ! i)) ?u"
      by (simp add: native_change_def dispatch_change_def)
    then show ?thesis
      using run_listeners_log [of "el_listeners (elems ?u ! i)" ?u] by simp
  next
    case False
    then show ?thesis by (simp add: native_change_def dispatch_change_def)
  qed
qed

lemma native_change_at_trigger:
  assumes "inputRef s = Some i" and "i < length (elems s)"
  shows "files (native_change i report s) =
           (case report of None \<Rightarrow> files s
            | Some fl \<Rightarrow> if el_listeners (elems s ! i) = [] then files s else Some fl)"
    and "calls (native_change i report s) =
           calls s @ (case report of None \<Rightarrow> []
                      | Some fl \<Rightarrow> onChange_calls (el_listeners (elems s ! i)) fl)"
proof -
  let ?u = "update_element i (\<lambda>el. el \<lparr> el_files := report \<rparr>) s"
  let ?ls = "el_listeners (elems s ! i)"
  have n: "native_change i report s = run_listeners ?ls ?u"
    by (rule native_change_current(1) [OF assms])
  have c: "current_files ?u = report"
    by (rule native_change_current(2) [OF assms])
  show "files (native_change i report s) =
           (case report of None \<Rightarrow> files s
            | Some fl \<Rightarrow> if ?ls = [] then files s else Some fl)"
  proof (cases report)
    case None
    then show ?thesis using n c by (simp add: run_listeners_None)
  next
    case (Some fl)
    then show ?thesis using n run_listeners_files [of ?u fl ?ls] c by simp
  qed
  show "calls (native_change i report s) =
           calls s @ (case report of None \<Rightarrow> [] | Some fl \<Rightarrow> onChange_calls ?ls fl)"
  proof (cases report)
    case None
    then show ?thesis using n c by (simp add: run_listeners_None)
  next
    case (Some fl)
    then show ?thesis using n run_listeners_calls [of ?u fl ?ls] c by simp
  qed
qed

text \<open>
  Claim C6. Whatever a native change notification adds to the log is a call of
  \<open>onChange\<close> with a collection that is not null. When the notification is at the element
  the ref holds: a report without a files collection changes neither the selection nor
  the log; a report with a collection makes it the selection (when a listener is
  registered) and hands the same collection to the callback of each listener.
\<close>

theorem change_notification_guard:
  "list_all nonnull_onChange (drop (length (calls s)) (calls (native_change i report s)))
   \<and> take (length (calls s)) (calls (native_change i report s)) = calls s
   \<and> (inputRef s = Some i \<and> i < length (elems s) \<longrightarrow>
        files (native_change i report s) =
          (case report of None \<Rightarrow> files s
           | Some fl \<Rightarrow> if el_listeners (elems s ! i) = [] then files s else Some fl)
        \<and> calls (native_change i report s) =
            calls s @ (case report of None \<Rightarrow> []
                       | Some fl \<Rightarrow> onChange_calls (el_listeners (elems s ! i)) fl))"
proof -
  obtain evs where "calls (native_change i report s) = calls s @ evs"
    and "list_all nonnull_onChange evs"
    using native_change_log by blast
  then have "list_all nonnull_onChange (drop (length (calls s)) (calls (native_change i report s)))"
    and "take (length (calls s)) (calls (native_change i report s)) = calls s"
    by simp_all
  then show ?thesis
    using native_change_at_trigger [of s i report] by blast
qed

theorem change_notification_guard_witness:
  "inputRef sample_mounted = Some 0 \<and> 0 < length (elems sample_mounted)
   \<and> files (native_change 0 (Some sample_pick) sample_mounted) = Some sample_pick
   \<and> calls (native_change 0 (Some sample_pick) sample_mounted) = [OnChange 7 (Some sample_pick)]
   \<and> files (native_change 0 None sample_mounted) = None
   \<and> calls (native_change 0 None sample_mounted) = []"
proof -
  have a: "inputRef sample_mounted = Some 0 \<and> 0 < length (elems sample_mounted)"
    by (simp add: sample_mounted_eq)
  have f: "files sample_mounted = None" "calls sample_mounted = []"
    "el_listeners (elems sample_mounted ! 0) = [merged_options sample_input]"
    by (simp_all add: sample_mounted_eq)
  show ?thesis
    using change_notification_guard [of sample_mounted 0 "Some sample_pick"]
      change_notification_guard [of sample_mounted 0 None] a f
    by (simp add: onChange_sample)
qed

subsection \<open>reset\<close>

lemma reset_calls:
  "calls (reset options s) =
     calls s @ (case inputRef s of None \<Rightarrow> []
                | Some i \<Rightarrow> (case prop_get (onChange options) of None \<Rightarrow> []
                             | Some cb \<Rightarrow> [OnChange cb None]))"
  by (simp add: reset_def call_onChange_calls split: option.splits)

lemma reset_current_input:
  assumes "wf s"
  shows "case current_input (reset options s) of
           None \<Rightarrow> inputRef s = None | Some el \<Rightarrow> value_is_empty el"
proof (cases "inputRef s")
  case None
  then show ?thesis by (simp add: current_input_def)
next
  case (Some i)
  then have i: "i < length (elems s)"
    using assms by (simp add: wf_def ref_in_range_def)
  have "elems (reset options s) ! i =
      (elems s ! i) \<lparr> el_files := (case el_files (elems s ! i) of None \<Rightarrow> None
            | Some fl \<Rightarrow> Some \<lparr> fl_id = next_obj s, fl_items = [] \<rparr>) \<rparr>"
    using Some i by (simp add: reset_def clear_value_def update_element_def split: option.splits)
  then have "value_is_empty (elems (reset options s) ! i)"
    by (simp add: value_is_empty_def split: option.splits)
  then show ?thesis using Some i by (simp add: current_input_def)
qed

text \<open>
  Claim C4. After \<open>reset\<close> the selection is null. With a callback \<open>cb\<close> supplied as
  \<open>onChange\<close>, the log grows by exactly one call \<open>cb(null)\<close> when the ref holds a
  Trigger and by nothing when it holds none; the value of the Trigger is empty afterwards.
\<close>

theorem reset_contract:
  assumes "wf s" and "prop_get (onChange options) = Some cb"
  shows "files (reset options s) = None
       \<and> calls (reset options s) = calls s @ (if inputRef s = None then [] else [OnChange cb None])
       \<and> count_list (calls (reset options s)) (OnChange cb None) =
           count_list (calls s) (OnChange cb None) + (if inputRef s = None then 0 else 1)
       \<and> (case current_input (reset options s) of
             None \<Rightarrow> inputRef s = None | Some el \<Rightarrow> value_is_empty el)"
proof -
  have k: "calls (reset options s) = calls s @ (if inputRef s = None then [] else [OnChange cb None])"
    using assms(2) by (simp add: reset_calls split: option.splits)
  have "count_list (calls (reset options s)) (OnChange cb None) =
      count_list (calls s) (OnChange cb None) + (if inputRef s = None then 0 else 1)"
    unfolding k by (simp add: count_list_append)
  then show ?thesis
    using k reset_current_input [OF assms(1), of options] by simp
qed

theorem reset_contract_witness:
  "wf sample_mounted \<and> prop_get (onChange (merged_options sample_input)) = Some 7
   \<and> files (reset (merged_options sample_input) sample_mounted) = None
   \<and> calls (reset (merged_options sample_input) sample_mounted) = [OnChange 7 None]
   \<and> count_list (calls (reset (merged_options sample_input) sample_mounted)) (OnChange 7 None) = 1"
proof -
  have f: "inputRef sample_mounted = Some 0" "calls sample_mounted = []"
    by (simp_all add: sample_mounted_eq)
  show ?thesis
    using reset_contract [OF wf_sample_mounted onChange_sample] f wf_sample_mounted
      onChange_sample
    by simp
qed

lemma reset_without_callback:
  "prop_get (onChange options) = None \<Longrightarrow> calls (reset options s) = calls s"
  by (simp add: reset_calls split: option.splits)

subsection \<open>open with resetOnOpen\<close>

lemma click_current_calls:
  "calls (click_current s) = calls s @ (case inputRef s of None \<Rightarrow> [] | Some i \<Rightarrow> [Click i])"
  by (simp add: click_current_def split: option.splits)

lemma current_input_click_current:
  "current_input (click_current s) = current_input s"
  by (rule current_input_eqI) simp_all

lemma sample_picked_eq:
  "sample_picked =
     \<lparr> files = Some sample_pick, inputRef = Some 0, aborted = False,
       elems = [\<lparr> el_type = ''file'', el_accept = ''*'', el_multiple = True, el_capture = [],
                  el_webkitdirectory = False, el_display = ''none'',
                  el_files = Some sample_pick, el_connected = True,
                  el_listeners = [merged_options sample_input] \<rparr>],
       calls = [OnChange 7 (Some sample_pick)], next_obj = 1 \<rparr>"
  by (simp add: sample_picked_def sample_mounted_eq native_change_def dispatch_change_def
      update_element_def change_listener_def call_onChange_def current_files_def
      current_input_def onChange_sample)

lemma wf_sample_picked: "wf sample_picked"
  unfolding sample_picked_def by (rule wf_native_change [OF wf_sample_mounted])

text \<open>
  Claim C5. With \<open>resetOnOpen\<close> true, \<open>open\<close> is the click applied to the state that
  \<open>reset\<close> leaves. The whole reset has happened when the click does: the selection is
  null, the value of the Trigger is empty, and in the log the call \<open>onChange(null)\<close>, when
  there is one, stands before the click.
\<close>

theorem open_resets_before_click:
  assumes "wf s" and "prop_get (resetOnOpen options) = Some True"
  shows "open_dialog options s = click_current (reset options s)
       \<and> files (open_dialog options s) = None
       \<and> calls (open_dialog options s) =
           calls s @ (case inputRef s of None \<Rightarrow> []
                      | Some i \<Rightarrow> (case prop_get (onChange options) of None \<Rightarrow> []
                                   | Some cb \<Rightarrow> [OnChange cb None]) @ [Click i])
       \<and> (case current_input (open_dialog options s) of
             None \<Rightarrow> inputRef s = None | Some el \<Rightarrow> value_is_empty el)"
proof -
  have o: "open_dialog options s = click_current (reset options s)"
    using assms(2) by (simp add: open_dialog_def)
  have k: "calls (click_current (reset options s)) =
      calls s @ (case inputRef s of None \<Rightarrow> []
                 | Some i \<Rightarrow> (case prop_get (onChange options) of None \<Rightarrow> []
                              | Some cb \<Rightarrow> [OnChange cb None]) @ [Click i])"
    by (simp add: click_current_calls reset_calls split: option.splits)
  have v: "case current_input (click_current (reset options s)) of
      None \<Rightarrow> inputRef s = None | Some el \<Rightarrow> value_is_empty el"
    using reset_current_input [OF assms(1), of options]
    by (simp add: current_input_click_current)
  show ?thesis using o k v by simp
qed

theorem open_resets_before_click_witness:
  "wf sample_picked
   \<and> prop_get (resetOnOpen (merged_options sample_resetOnOpen)) = Some True
   \<and> map_option value_is_empty (current_input sample_picked) = Some False
   \<and> files (open_dialog (merged_options sample_resetOnOpen) sample_picked) = None
   \<and> calls (open_dialog (merged_options sample_resetOnOpen) sample_picked) =
       [OnChange 7 (Some sample_pick), OnChange 7 None, Click 0]
   \<and> map_option value_is_empty
        (current_input (open_dialog (merged_options sample_resetOnOpen) sample_picked)) = Some True"
proof -
  let ?o = "merged_options sample_resetOnOpen"
  have r: "prop_get (resetOnOpen ?o) = Some True"
    by (simp add: merged_options_def spread_def sample_resetOnOpen_def)
  have c: "prop_get (onChange ?o) = Some 7"
    by (simp add: merged_options_def spread_def sample_resetOnOpen_def sample_input_def)
  have f: "inputRef sample_picked = Some 0"
    "calls sample_picked = [OnChange 7 (Some sample_pick)]"
    "length (elems sample_picked) = 1"
    by (simp_all add: sample_picked_eq)
  have b: "map_option value_is_empty (current_input sample_picked) = Some False"
    by (simp add: sample_picked_eq current_input_def value_is_empty_def sample_pick_def)
  note t = open_resets_before_click [OF wf_sample_picked r, THEN conjunct2]
  have i: "inputRef (open_dialog ?o sample_picked) = Some 0"
    "length (elems (open_dialog ?o sample_picked)) = 1"
    using r f by (simp_all add: open_dialog_def)
  have n: "current_input (open_dialog ?o sample_picked) \<noteq> None"
    using i by (simp add: current_input_def)
  have a: "map_option value_is_empty (current_input (open_dialog ?o sample_picked)) = Some True"
    using t n by (auto split: option.splits)
  show ?thesis
    using t a b r c f wf_sample_picked by simp
qed

subsection \<open>open without resetOnOpen\<close>

text \<open>
  Claim C3. When the caller's input has no \<open>resetOnOpen\<close> (the key is absent, or
  undefined), the merged options have none either, and \<open>open\<close> is the click alone:
  selection and elements stay as they are and \<open>onChange\<close> is not called.
\<close>

theorem open_without_resetOnOpen:
  assumes "prop_get (resetOnOpen input) = None"
  shows "prop_get (resetOnOpen (merged_options input)) = None
       \<and> open_dialog (merged_options input) s = click_current s
       \<and> files (open_dialog (merged_options input) s) = files s
       \<and> elems (open_dialog (merged_options input) s) = elems s
       \<and> calls (open_dialog (merged_options input) s) =
           calls s @ (case inputRef s of None \<Rightarrow> [] | Some i \<Rightarrow> [Click i])"
proof -
  have m: "prop_get (resetOnOpen (merged_options input)) = None"
    using assms
    by (cases "resetOnOpen input") (simp_all add: merged_options_def spread_def defaultOptions_def)
  then have "open_dialog (merged_options input) s = click_current s"
    by (simp add: open_dialog_def)
  then show ?thesis using m by (simp add: click_current_calls)
qed

theorem open_without_resetOnOpen_witness:
  "prop_get (resetOnOpen sample_input) = None
   \<and> prop_get (resetOnOpen (merged_options sample_input)) = None
   \<and> files (open_dialog (merged_options sample_input)
        (native_change 0 (Some sample_pick) sample_mounted)) = Some sample_pick
   \<and> calls (open_dialog (merged_options sample_input)
        (native_change 0 (Some sample_pick) sample_mounted))
       = [OnChange 7 (Some sample_pick), Click 0]"
proof -
  have r: "prop_get (resetOnOpen sample_input) = None"
    by (simp add: sample_input_def)
  have n: "files (native_change 0 (Some sample_pick) sample_mounted) = Some sample_pick"
    "calls (native_change 0 (Some sample_pick) sample_mounted) = [OnChange 7 (Some sample_pick)]"
    "inputRef (native_change 0 (Some sample_pick) sample_mounted) = Some 0"
    by (simp_all add: sample_mounted_eq native_change_def dispatch_change_def update_element_def
        change_listener_def call_onChange_def current_files_def current_input_def onChange_sample)
  show ?thesis
    using open_without_resetOnOpen [OF r, of "native_change 0 (Some sample_pick) sample_mounted"] r n
    by (simp add: click_current_calls)
qed

subsection \<open>No document\<close>

text \<open>
  While the ref holds no Trigger, \<open>open\<close> clicks nothing and calls nothing: it leaves
  the state as it is, but for the selection that the reset of \<open>resetOnOpen\<close> sets to
  null; \<open>reset\<close> sets the selection to null and calls nothing.
\<close>

lemma open_reset_without_trigger:
  assumes "inputRef s = None"
  shows "open_dialog options s =
           (if truthy_bool (prop_get (resetOnOpen options)) then s \<lparr> files := None \<rparr> else s)"
    and "calls (open_dialog options s) = calls s"
    and "reset options s = s \<lparr> files := None \<rparr>"
    and "calls (reset options s) = calls s"
  using assms by (simp_all add: open_dialog_def reset_def click_current_def)

text \<open>
  \<open>createInput\<close> itself raises nothing. Its only caller is the effect, and without a
  document the effect does not get past the next line: every run ends in an error, and a
  run that succeeds had a document and leaves a Trigger in the ref.
\<close>

lemma createInput_without_document:
  "createInput False options n = (None, n)"
  by (simp add: createInput_def)

lemma effect_setup_without_document:
  "effect_setup False options s = Inl ReferenceError"
  by (simp add: effect_setup_def createInput_def)

lemma mount_without_document:
  "mount False n input = Inl ReferenceError"
  by (simp add: mount_def effect_setup_without_document)

lemma config_change_without_document:
  "config_change False input s = Inl ReferenceError"
  by (simp add: config_change_def effect_setup_without_document)

lemma effect_setup_Inr_has_trigger:
  assumes "effect_setup d options s = Inr s'"
  shows "d \<and> inputRef s' = Some (length (elems s))"
proof -
  obtain el where c: "createInput d options (next_obj s) = (Some el, Suc (next_obj s))"
    and s': "s' = addEventListener (length (elems s)) options
        (s \<lparr> inputRef := Some (length (elems s)),
             elems := elems s @ [el \<lparr> el_connected := True \<rparr>],
             next_obj := Suc (next_obj s) \<rparr>)"
    using effect_setup_Inr [OF assms] by blast
  have "d" using c createInput_Some by blast
  then show ?thesis by (simp add: s' addEventListener_def)
qed

lemma mount_Inr_has_trigger:
  "mount d n input = Inr s' \<Longrightarrow> d \<and> inputRef s' \<noteq> None"
  unfolding mount_def using effect_setup_Inr_has_trigger by fastforce

text \<open>
  Claim C9, evaluated. Without a document \<open>createInput\<close> returns null and raises
  nothing, but the effect that called it goes on to \<^verbatim>\<open>document.body\<close> and throws: the
  mount of the hook ends in a ReferenceError, before any Trigger operation of the effect
  could be skipped.
\<close>

theorem no_document_effect_throws:
  "createInput False (merged_options sample_input) 0 = (None, 0)
   \<and> inputRef (useFileDialog_init 0 sample_input) = None
   \<and> effect_setup False (merged_options sample_input) (useFileDialog_init 0 sample_input)
       = Inl ReferenceError
   \<and> mount False 0 sample_input = Inl ReferenceError"
proof -
  have i: "inputRef (useFileDialog_init 0 sample_input) = None"
    by (simp add: useFileDialog_init_def merged_options_def spread_def defaultOptions_def
        sample_input_def)
  have e: "effect_setup False (merged_options sample_input) (useFileDialog_init 0 sample_input)
      = Inl ReferenceError"
    by (simp add: effect_setup_def createInput_def)
  show ?thesis using i e by (simp add: createInput_def mount_def)
qed

subsection \<open>A configuration change\<close>

lemma config_change_no_listeners:
  assumes "wf s" and "config_change d input s = Inr s'"
  shows "aborted s' \<and> no_listeners s' \<and> files s' = files s \<and> calls s' = calls s"
proof -
  let ?c = "effect_cleanup (useFileDialog_render input s)"
  have w: "wf (useFileDialog_render input s)"
    using assms(1) by (rule wf_useFileDialog_render)
  have c: "no_listeners ?c" "aborted ?c"
    using w by (simp_all add: no_listeners_effect_cleanup)
  obtain el where el: "createInput d (merged_options input) (next_obj ?c) = (Some el, Suc (next_obj ?c))"
    and s': "s' = addEventListener (length (elems ?c)) (merged_options input)
        (?c \<lparr> inputRef := Some (length (elems ?c)),
              elems := elems ?c @ [el \<lparr> el_connected := True \<rparr>],
              next_obj := Suc (next_obj ?c) \<rparr>)"
    using effect_setup_Inr [of d "merged_options input" ?c s'] assms(2)
    by (auto simp: config_change_def)
  have l: "el_listeners el = []" using el createInput_Some by blast
  have "files ?c = files s" "calls ?c = calls s"
    by (simp_all add: useFileDialog_render_def)
  then show ?thesis
    using c l by (simp add: s' addEventListener_def no_listeners_def)
qed

text \<open>
  Claim C1, evaluated. After the first mount a native change notification at the Trigger
  updates the selection and calls \<open>onChange\<close>. After one configuration change the old
  Trigger is disconnected and a new one is connected and held by the ref, but it has no
  listener: the signal handed to \<open>addEventListener\<close> is the one the teardown aborted.
  The same notification at the new Trigger changes nothing.
\<close>

theorem config_change_loses_subscription:
  "(case config_change True sample_input sample_mounted of
      Inl e \<Rightarrow> False
    | Inr s2 \<Rightarrow>
        inputRef s2 = Some 1
        \<and> map el_connected (elems s2) = [False, True]
        \<and> map el_listeners (elems s2) = [[], []]
        \<and> files (native_change 1 (Some sample_pick) s2) = None
        \<and> calls (native_change 1 (Some sample_pick) s2) = [])
   \<and> mount True 0 sample_input = Inr sample_mounted
   \<and> files (native_change 0 (Some sample_pick) sample_mounted) = Some sample_pick
   \<and> calls (native_change 0 (Some sample_pick) sample_mounted) = [OnChange 7 (Some sample_pick)]"
proof -
  have m: "mount True 0 sample_input = Inr sample_mounted"
    by (simp add: sample_mounted_eq mount_def effect_setup_def createInput_def
      useFileDialog_init_def merged_options_def spread_def defaultOptions_def sample_input_def
      set_webkitdirectory_def set_capture_def set_multiple_def set_accept_def set_type_file_def
      createElement_input_def addEventListener_def update_element_def)
  have n: "files (native_change 0 (Some sample_pick) sample_mounted) = Some sample_pick"
    "calls (native_change 0 (Some sample_pick) sample_mounted) = [OnChange 7 (Some sample_pick)]"
    by (simp_all add: sample_mounted_eq native_change_def dispatch_change_def update_element_def
        change_listener_def call_onChange_def current_files_def current_input_def onChange_sample)
  have c: "config_change True sample_input sample_mounted =
      Inr \<lparr> files = None, inputRef = Some 1, aborted = True,
        elems = [\<lparr> el_type = ''file'', el_accept = ''*'', el_multiple = True, el_capture = [],
                  el_webkitdirectory = False, el_display = ''none'',
                  el_files = Some \<lparr> fl_id = 0, fl_items = [] \<rparr>, el_connected = False,
                  el_listeners = [] \<rparr>,
                 \<lparr> el_type = ''file'', el_accept = ''*'', el_multiple = True, el_capture = [],
                  el_webkitdirectory = False, el_display = ''none'',
                  el_files = Some \<lparr> fl_id = 1, fl_items = [] \<rparr>, el_connected = True,
                  el_listeners = [] \<rparr>],
        calls = [], next_obj = 2 \<rparr>"
    by (simp add: sample_mounted_eq config_change_def effect_cleanup_def abort_def
      remove_current_def useFileDialog_render_def effect_setup_def createInput_def
      merged_options_def spread_def defaultOptions_def sample_input_def
      set_webkitdirectory_def set_capture_def set_multiple_def set_accept_def set_type_file_def
      createElement_input_def addEventListener_def update_element_def)
  show ?thesis
    using m n
    by (simp add: c native_change_def dispatch_change_def update_element_def)
qed

end
